theory Spec2Isabelle
  imports Complex_Main "HOL-Library.AList" "HOL-Library.Sublist"
begin

text \<open>
  A shallow embedding of the conversation memory of Augi (src/src/memory_manager.py), of its
  profile learner (src/src/user_profile.py) and of its permission gate
  (src/src/permission_manager.py), with the properties the specification states about them.

  Conventions of the embedding.
  \<^item> A Python \<open>str\<close> is a \<open>string\<close>. The text functions (\<open>lower\<close>, \<open>isalpha\<close>,
    \<open>split\<close>, \<open>strip\<close>) are those of Python on ASCII text; Python treats letters and white space
    beyond ASCII as well, and counts code points where \<open>length\<close> counts bytes, so the model
    speaks about ASCII text.
  \<^item> A Python \<open>dict\<close> is an association list with distinct keys, in insertion order;
    \<open>d[k] = v\<close> is \<open>AList.update k v d\<close>, which keeps the position of an existing key and appends
    a new one.
  \<^item> A value that went through \<open>json.dump\<close> and \<open>json.load\<close> is a \<open>json\<close> value; the library
    is taken to read back what it wrote. A file that cannot be read or parsed
    (\<open>IOError\<close>, \<open>JSONDecodeError\<close>) is \<open>Unparsable\<close>; decoding of bytes is not modelled.
  \<^item> A session id names the file \<open>conversations/<id>.json\<close>; the directory is keyed by that
    name, so ids are file name stems and path separators inside an id are outside the model.
  \<^item> An exception is a value of \<open>py_error\<close>, returned as \<open>Inl\<close>, next to the state the raise
    leaves behind.
  \<^item> The clock, the operating system's refusals and the iteration order of Python's hash sets
    are inputs of the functions that read them.
\<close>

section \<open>Permission gate (src/src/permission_manager.py)\<close>

text \<open>
  \<open>PermissionLevel\<close> and \<open>OperationType\<close> are the two enums of the module. The value of an
  \<open>OperationType\<close> member is the string used as key of both permission tables.
\<close>

datatype PermissionLevel = DENY | REQUIRE_CONFIRMATION | ALLOW

datatype OperationType =
  FILE_READ | FILE_WRITE | FILE_DELETE | APP_LAUNCH | SYSTEM_COMMAND | INTERNET_ACCESS

fun op_value :: "OperationType \<Rightarrow> string" where
  "op_value FILE_READ = ''file_read''"
| "op_value FILE_WRITE = ''file_write''"
| "op_value FILE_DELETE = ''file_delete''"
| "op_value APP_LAUNCH = ''app_launch''"
| "op_value SYSTEM_COMMAND = ''system_command''"
| "op_value INTERNET_ACCESS = ''internet_access''"

text \<open>
  A \<open>datetime\<close> is a count of microseconds; \<open>timedelta(minutes=d)\<close> is \<open>d * 60000000\<close>.
  The two dictionaries of a \<open>PermissionManager\<close> are association lists in insertion order.
\<close>

type_synonym datetime = int

record PermissionManager =
  permissions :: "(string \<times> PermissionLevel) list"
  temp_permissions :: "(string \<times> PermissionLevel \<times> datetime) list"

definition default_permissions :: "(string \<times> PermissionLevel) list" where
  "default_permissions =
     [(op_value FILE_READ, REQUIRE_CONFIRMATION),
      (op_value FILE_WRITE, REQUIRE_CONFIRMATION),
      (op_value FILE_DELETE, DENY),
      (op_value APP_LAUNCH, REQUIRE_CONFIRMATION),
      (op_value SYSTEM_COMMAND, DENY)]"

definition set_default_permissions :: "PermissionManager \<Rightarrow> PermissionManager" where
  "set_default_permissions pm = pm\<lparr>permissions := default_permissions\<rparr>"

text \<open>
  \<open>__init__\<close> when the configuration file is absent or unreadable: both tables empty, then
  \<open>load_permissions\<close> falls back to the defaults.
\<close>

definition init_default :: PermissionManager where
  "init_default = set_default_permissions \<lparr>permissions = [], temp_permissions = []\<rparr>"

definition cleanup_expired_permissions :: "datetime \<Rightarrow> PermissionManager \<Rightarrow> PermissionManager" where
  "cleanup_expired_permissions now pm =
     pm\<lparr>temp_permissions := filter (\<lambda>(k, _, expiry). \<not> now > expiry) (temp_permissions pm)\<rparr>"

definition check_permission ::
  "datetime \<Rightarrow> PermissionManager \<Rightarrow> OperationType \<Rightarrow> PermissionLevel \<times> PermissionManager" where
  "check_permission now pm operation =
     (let pm' = cleanup_expired_permissions now pm;
          op_name = op_value operation
      in case map_of (temp_permissions pm') op_name of
           Some (perm, _) \<Rightarrow> (perm, pm')
         | None \<Rightarrow>
             (case map_of (permissions pm') op_name of
                Some level \<Rightarrow> (level, pm')
              | None \<Rightarrow> (DENY, pm')))"

definition set_permission ::
  "PermissionManager \<Rightarrow> OperationType \<Rightarrow> PermissionLevel \<Rightarrow> PermissionManager" where
  "set_permission pm operation level =
     pm\<lparr>permissions := AList.update (op_value operation) level (permissions pm)\<rparr>"

definition grant_temporary_permission ::
  "datetime \<Rightarrow> PermissionManager \<Rightarrow> OperationType \<Rightarrow> int \<Rightarrow> PermissionManager" where
  "grant_temporary_permission now pm operation duration_minutes =
     pm\<lparr>temp_permissions :=
          AList.update (op_value operation) (ALLOW, now + duration_minutes * 60000000)
            (temp_permissions pm)\<rparr>"

text \<open>A temporary grant for an operation is unexpired at \<open>now\<close> when its expiry is not before \<open>now\<close>.\<close>

definition unexpired_grant :: "datetime \<Rightarrow> PermissionManager \<Rightarrow> OperationType \<Rightarrow> bool" where
  "unexpired_grant now pm operation =
     (op_value operation \<in> fst ` set (filter (\<lambda>(k, _, expiry). \<not> now > expiry) (temp_permissions pm)))"

section \<open>Python text functions\<close>

definition upper_letters :: string where
  "upper_letters = ''ABCDEFGHIJKLMNOPQRSTUVWXYZ''"

definition lower_letters :: string where
  "lower_letters = ''abcdefghijklmnopqrstuvwxyz''"

definition lower_char :: "char \<Rightarrow> char" where
  "lower_char c = (case map_of (zip upper_letters lower_letters) c of Some d \<Rightarrow> d | None \<Rightarrow> c)"

definition upper_char :: "char \<Rightarrow> char" where
  "upper_char c = (case map_of (zip lower_letters upper_letters) c of Some d \<Rightarrow> d | None \<Rightarrow> c)"

text \<open>\<open>s.lower()\<close>\<close>

definition lower :: "string \<Rightarrow> string" where
  "lower s = map lower_char s"

text \<open>\<open>s.isalpha()\<close>: false on the empty string.\<close>

definition isalpha :: "string \<Rightarrow> bool" where
  "isalpha s = (s \<noteq> [] \<and> (\<forall>c \<in> set s. c \<in> set (upper_letters @ lower_letters)))"

text \<open>\<open>s.capitalize()\<close>\<close>

definition capitalize :: "string \<Rightarrow> string" where
  "capitalize s = (case s of [] \<Rightarrow> [] | c # cs \<Rightarrow> upper_char c # lower cs)"

text \<open>\<open>sub in s\<close>\<close>

fun str_in :: "string \<Rightarrow> string \<Rightarrow> bool" where
  "str_in sub [] = (sub = [])"
| "str_in sub (c # cs) = (prefix sub (c # cs) \<or> str_in sub cs)"

text \<open>\<open>s.find(sub)\<close>, with \<open>None\<close> for Python's \<open>-1\<close>.\<close>

fun str_find :: "string \<Rightarrow> string \<Rightarrow> nat option" where
  "str_find sub [] = (if sub = [] then Some 0 else None)"
| "str_find sub (c # cs) =
     (if prefix sub (c # cs) then Some 0
      else case str_find sub cs of None \<Rightarrow> None | Some i \<Rightarrow> Some (Suc i))"

text \<open>The white space of \<open>str.isspace\<close> within ASCII.\<close>

definition is_space :: "char \<Rightarrow> bool" where
  "is_space c = (c \<in> set [CHR 0x09, CHR 0x0A, CHR 0x0B, CHR 0x0C, CHR 0x0D,
                           CHR 0x1C, CHR 0x1D, CHR 0x1E, CHR 0x1F, CHR 0x20])"

text \<open>\<open>s.split()\<close>: the maximal runs of characters that are not white space.\<close>

fun split_ws_aux :: "string \<Rightarrow> string \<Rightarrow> string list" where
  "split_ws_aux acc [] = (if acc = [] then [] else [rev acc])"
| "split_ws_aux acc (c # cs) =
     (if is_space c then (if acc = [] then split_ws_aux [] cs else rev acc # split_ws_aux [] cs)
      else split_ws_aux (c # acc) cs)"

definition split_ws :: "string \<Rightarrow> string list" where
  "split_ws s = split_ws_aux [] s"

text \<open>\<open>s.strip()\<close> and \<open>s.strip(chars)\<close>\<close>

definition strip :: "string \<Rightarrow> string" where
  "strip s = rev (dropWhile is_space (rev (dropWhile is_space s)))"

definition strip_chars :: "char list \<Rightarrow> string \<Rightarrow> string" where
  "strip_chars cs s = rev (dropWhile (\<lambda>c. c \<in> set cs) (rev (dropWhile (\<lambda>c. c \<in> set cs) s)))"

text \<open>
  \<open>s.split(sep)\<close> for a separator that is not empty (Python raises \<open>ValueError\<close> on the empty
  one; every separator in the source is a literal): occurrences are taken from the left and do
  not overlap.
\<close>

fun split_on_aux :: "string \<Rightarrow> string \<Rightarrow> string \<Rightarrow> string list" where
  "split_on_aux sep acc [] = [rev acc]"
| "split_on_aux sep acc (c # cs) =
     (if prefix sep (c # cs) then rev acc # split_on_aux sep [] (drop (length sep - 1) cs)
      else split_on_aux sep (c # acc) cs)"

definition split_on :: "string \<Rightarrow> string \<Rightarrow> string list" where
  "split_on sep s = split_on_aux sep [] s"

text \<open>\<open>s.split(sep)[0]\<close>; the list \<open>split\<close> returns is never empty.\<close>

definition first_part :: "string \<Rightarrow> string \<Rightarrow> string" where
  "first_part sep s = (case split_on sep s of [] \<Rightarrow> [] | p # _ \<Rightarrow> p)"

text \<open>\<open>xs[:limit]\<close>: a negative limit counts from the end.\<close>

definition py_take :: "int \<Rightarrow> 'a list \<Rightarrow> 'a list" where
  "py_take limit xs =
     (if 0 \<le> limit then take (nat limit) xs else take (nat (int (length xs) + limit)) xs)"

section \<open>Python values and exceptions\<close>

datatype json =
  JNull | JBool bool | JInt int | JStr string | JArr "json list" | JObj "(string \<times> json) list"

datatype py_error = AttributeError | IndexError | OSError

text \<open>\<open>obj.get(key, default)\<close>; only a \<open>dict\<close> has the method.\<close>

fun dict_get :: "json \<Rightarrow> string \<Rightarrow> json \<Rightarrow> py_error + json" where
  "dict_get (JObj d) key dflt = Inr (case map_of d key of None \<Rightarrow> dflt | Some v \<Rightarrow> v)"
| "dict_get _ key dflt = Inl AttributeError"

text \<open>A message \<open>{"role": r, "content": c}\<close>, and the messages the specification calls well-formed.\<close>

definition message :: "string \<Rightarrow> string \<Rightarrow> json" where
  "message r c = JObj [(''role'', JStr r), (''content'', JStr c)]"

definition well_formed_message :: "json \<Rightarrow> bool" where
  "well_formed_message msg =
     (case msg of
        JObj d \<Rightarrow>
          (case (map_of d ''role'', map_of d ''content'') of
             (Some (JStr r), Some (JStr c)) \<Rightarrow> True
           | _ \<Rightarrow> False)
      | _ \<Rightarrow> False)"

section \<open>The keyword index (class ConversationIndex)\<close>

text \<open>
  \<open>self.index\<close> is \<open>{"conversations": {...}, "keywords": {...}}\<close>: the forward map from a
  session id to its entry and the inverted map from a keyword to its bucket of session ids.
\<close>

record index_entry =
  timestamp :: string
  message_count :: nat
  entry_keywords :: "string list"

record index_dict =
  conversations :: "(string \<times> index_entry) list"
  keyword_buckets :: "(string \<times> string list) list"

definition empty_index :: index_dict where
  "empty_index = \<lparr>conversations = [], keyword_buckets = []\<rparr>"

text \<open>
  One round of the loop of \<open>add_conversation\<close>: create the bucket when the keyword has none,
  then append the session id unless the bucket has it.
\<close>

definition index_keyword ::
  "string \<Rightarrow> string \<Rightarrow> (string \<times> string list) list \<Rightarrow> (string \<times> string list) list" where
  "index_keyword session_id keyword kws =
     (let kws1 = (if keyword \<notin> fst ` set kws then AList.update keyword [] kws else kws)
      in case map_of kws1 keyword of
           None \<Rightarrow> kws1
         | Some bucket \<Rightarrow>
             if session_id \<notin> set bucket then AList.update keyword (bucket @ [session_id]) kws1
             else kws1)"

text \<open>\<open>add_conversation\<close> on the dictionary; writing the index file is \<open>save_index\<close> below.\<close>

definition add_conversation ::
  "index_dict \<Rightarrow> string \<Rightarrow> string list \<Rightarrow> string \<Rightarrow> nat \<Rightarrow> index_dict" where
  "add_conversation idx session_id kws ts n =
     \<lparr>conversations =
        AList.update session_id
          \<lparr>timestamp = ts, message_count = n, entry_keywords = kws\<rparr> (conversations idx),
      keyword_buckets = fold (index_keyword session_id) kws (keyword_buckets idx)\<rparr>"

text \<open>
  \<open>matching_sessions\<close> of \<open>search_by_keywords\<close>: a dictionary from session id to score. The
  scores are sums of \<open>1\<close> and \<open>0.5\<close>, which binary floating point adds without rounding, so they
  are rationals here.
\<close>

type_synonym scores = "(string \<times> rat) list"

definition score_of :: "scores \<Rightarrow> string \<Rightarrow> rat" where
  "score_of m session_id = (case map_of m session_id of None \<Rightarrow> 0 | Some v \<Rightarrow> v)"

text \<open>\<open>matching_sessions[session_id] = matching_sessions.get(session_id, 0) + w\<close>\<close>

definition bump :: "rat \<Rightarrow> string \<Rightarrow> scores \<Rightarrow> scores" where
  "bump w session_id m = AList.update session_id (score_of m session_id + w) m"

text \<open>\<open>keyword_lower in indexed_keyword or indexed_keyword in keyword_lower\<close>\<close>

definition partial_hit :: "string \<Rightarrow> string \<Rightarrow> bool" where
  "partial_hit keyword_lower indexed_keyword =
     (str_in keyword_lower indexed_keyword \<or> str_in indexed_keyword keyword_lower)"

definition direct_match :: "index_dict \<Rightarrow> string \<Rightarrow> scores \<Rightarrow> scores" where
  "direct_match idx keyword_lower m =
     (case map_of (keyword_buckets idx) keyword_lower of
        None \<Rightarrow> m
      | Some bucket \<Rightarrow> fold (bump 1) bucket m)"

definition partial_match :: "index_dict \<Rightarrow> string \<Rightarrow> scores \<Rightarrow> scores" where
  "partial_match idx keyword_lower m =
     fold (\<lambda>(indexed_keyword, bucket) m'.
             if partial_hit keyword_lower indexed_keyword then fold (bump (1/2)) bucket m' else m')
       (keyword_buckets idx) m"

definition matching_sessions :: "index_dict \<Rightarrow> string list \<Rightarrow> scores" where
  "matching_sessions idx kws =
     fold (\<lambda>keyword m. partial_match idx (lower keyword) (direct_match idx (lower keyword) m))
       kws []"

text \<open>
  \<open>sorted(..., key=score, reverse=True)\<close> is stable: sessions of equal score keep the order in
  which the dictionary holds them.
\<close>

definition search_by_keywords :: "index_dict \<Rightarrow> string list \<Rightarrow> string list" where
  "search_by_keywords idx kws =
     map fst (sort_key (\<lambda>(session_id, score). - score) (matching_sessions idx kws))"

section \<open>Keyword extraction (MemoryManager._extract_keywords)\<close>

definition important_words :: "string list" where
  "important_words =
     [''python'', ''code'', ''help'', ''learn'', ''project'', ''question'',
      ''error'', ''problem'', ''solution'', ''idea'', ''discuss'', ''explain'',
      ''how'', ''what'', ''why'', ''when'', ''where'', ''about'', ''like'',
      ''build'', ''create'', ''develop'', ''design'', ''plan'', ''work'']"

text \<open>
  The \<open>set\<close> of keywords is the list of its members in the order they were first added;
  \<open>keywords.add(x)\<close> is \<open>set_add\<close>. The order in which Python iterates the set is another
  matter: see \<open>extract_keywords\<close>.
\<close>

definition set_add :: "string \<Rightarrow> string list \<Rightarrow> string list" where
  "set_add x s = (if x \<in> set s then s else s @ [x])"

definition add_topic_words :: "string \<Rightarrow> string list \<Rightarrow> string list" where
  "add_topic_words content kws =
     fold (\<lambda>word ks. if str_in word content then set_add word ks else ks) important_words kws"

text \<open>\<open>f"{words[i]} {words[i+1]}"\<close> for \<open>i\<close> in \<open>range(len(words) - 1)\<close>\<close>

fun phrase_list :: "string list \<Rightarrow> string list" where
  "phrase_list (w1 # w2 # ws) = (w1 @ '' '' @ w2) # phrase_list (w2 # ws)"
| "phrase_list _ = []"

definition add_phrases :: "string list \<Rightarrow> string list \<Rightarrow> string list" where
  "add_phrases words kws =
     fold (\<lambda>phrase ks. if length phrase > 5 \<and> length phrase < 50 then set_add phrase ks else ks)
       (phrase_list words) kws"

text \<open>
  The loop over the messages. \<open>msg.get\<close> raises on a message that is no dictionary, and
  \<open>.lower()\<close> on a content that is no string.
\<close>

fun collect_keywords :: "json list \<Rightarrow> string list \<Rightarrow> py_error + string list" where
  "collect_keywords [] kws = Inr kws"
| "collect_keywords (msg # msgs) kws =
     (case dict_get msg ''content'' (JStr '''') of
        Inl e \<Rightarrow> Inl e
      | Inr (JStr s) \<Rightarrow>
          (let content = lower s
           in collect_keywords msgs (add_phrases (split_ws content) (add_topic_words content kws)))
      | Inr _ \<Rightarrow> Inl AttributeError)"

text \<open>
  \<open>list(keywords)[:20]\<close>. Python lists a hash set in the order of its table, which for strings
  depends on a hash seed drawn per process; \<open>set_order\<close> is that order, an input of the model.
\<close>

definition extract_keywords ::
  "(string list \<Rightarrow> string list) \<Rightarrow> json list \<Rightarrow> py_error + string list" where
  "extract_keywords set_order messages =
     (case collect_keywords messages [] of
        Inl e \<Rightarrow> Inl e
      | Inr kws \<Rightarrow> Inr (take 20 (set_order kws)))"

section \<open>The conversation store (class MemoryManager)\<close>






text \<open>
  What a call reads from its surroundings: \<open>datetime.now()\<close> formatted as a session id and as
  an ISO timestamp, the modification time a written file gets, and the iteration order of sets.
\<close>

record runtime =
  strftime_now :: string
  isoformat_now :: string
  mtime_now :: int
  set_order :: "string list \<Rightarrow> string list"












section \<open>The profile learner (class UserProfileManager)\<close>

text \<open>
  The fields of the profile that the modelled methods read or write; the others
  (\<open>hobbies\<close>, \<open>work_info\<close>, the favourites, \<open>learning_notes\<close>) are never touched by them.
  \<open>interests\<close> and \<open>skills\<close> are sets: \<open>update_profile\<close> turns a list it finds there into the set
  of its members before the union.
\<close>

record profile =
  created :: string
  last_updated :: string
  preferred_name :: "string option"
  interests :: "string set"
  skills :: "string set"
  preferences :: "(string \<times> json) list"

text \<open>
  The dictionary \<open>extract_from_conversation\<close> returns and \<open>update_profile\<close> takes. A field is
  \<open>None\<close> when the dictionary has no such key; \<open>update_profile\<close> asks for each key.
\<close>

record extracted_info =
  x_preferred_name :: "string option"
  x_interests :: "string set option"
  x_skills :: "string set option"
  x_preferences :: "(string \<times> json) list option"
  x_mentions :: "string set"

definition interest_keywords :: "string list" where
  "interest_keywords =
     [''i like'', ''i love'', ''i enjoy'', ''interested in'', ''hobby'',
      ''passion'', ''fascinated'', ''enthusiast'', ''fan of'', ''into'']"

definition skill_keywords :: "string list" where
  "skill_keywords =
     [''i know'', ''i can'', ''i'm good at'', ''expertise'', ''skilled in'',
      ''experienced with'', ''proficient'', ''master'', ''expert'']"

definition name_phrases :: "string list" where
  "name_phrases =
     [''my name is '', ''i am '', ''i'm '', ''call me '', ''you can call me '', ''people call me '']"

text \<open>
  One round of the loop over \<open>name_phrases\<close>. \<open>phrase in content_lower\<close> holds exactly when
  \<open>find\<close> has a position; \<open>content[idx:].split()[0]\<close> raises on an empty list.
\<close>

definition name_from_phrase :: "string \<Rightarrow> string \<Rightarrow> string \<Rightarrow> py_error + string option" where
  "name_from_phrase content content_lower phrase =
     (case str_find phrase content_lower of
        None \<Rightarrow> Inr None
      | Some i \<Rightarrow>
          (case split_ws (drop (i + length phrase) content) of
             [] \<Rightarrow> Inl IndexError
           | w # _ \<Rightarrow>
               (let name_candidate = strip_chars ''. ,!?'' w
                in if name_candidate \<noteq> [] \<and> isalpha name_candidate \<and> length name_candidate > 1
                   then Inr (Some (capitalize name_candidate))
                   else Inr None)))"

fun extract_names ::
  "string \<Rightarrow> string \<Rightarrow> string list \<Rightarrow> string option \<Rightarrow> py_error + string option" where
  "extract_names content content_lower [] name = Inr name"
| "extract_names content content_lower (phrase # phrases) name =
     (case name_from_phrase content content_lower phrase of
        Inl e \<Rightarrow> Inl e
      | Inr None \<Rightarrow> extract_names content content_lower phrases name
      | Inr (Some n) \<Rightarrow> extract_names content content_lower phrases (Some n))"

text \<open>\<open>parts[1][:50].strip().split('.')[0].strip()\<close>, kept when longer than two characters.\<close>

definition fact_after :: "string \<Rightarrow> string \<Rightarrow> string option" where
  "fact_after content_lower keyword =
     (if str_in keyword content_lower then
        (case split_on keyword content_lower of
           _ # p1 # _ \<Rightarrow>
             (let fact = strip (first_part ''.'' (strip (take 50 p1)))
              in if fact \<noteq> [] \<and> length fact > 2 then Some fact else None)
         | _ \<Rightarrow> None)
      else None)"

definition add_facts :: "string \<Rightarrow> string list \<Rightarrow> string set \<Rightarrow> string set" where
  "add_facts content_lower kws facts =
     fold (\<lambda>keyword acc. case fact_after content_lower keyword of
                            None \<Rightarrow> acc
                          | Some f \<Rightarrow> insert f acc)
       kws facts"

fun mention_words :: "string list \<Rightarrow> string list" where
  "mention_words (w1 # w2 # ws) =
     (if w1 \<in> set [''my'', ''i've'', ''i'm''] then w2 # mention_words (w2 # ws)
      else mention_words (w2 # ws))"
| "mention_words _ = []"

definition add_mentions :: "string \<Rightarrow> string set \<Rightarrow> string set" where
  "add_mentions content_lower mentions =
     (if str_in ''my'' content_lower \<or> str_in ''i'' content_lower
      then mentions \<union> set (mention_words (split_ws content_lower))
      else mentions)"

definition the_set :: "string set option \<Rightarrow> string set" where
  "the_set s = (case s of None \<Rightarrow> {} | Some x \<Rightarrow> x)"

text \<open>The body of the loop over the conversation: only a message of role \<open>user\<close> is read.\<close>

definition extract_message :: "json \<Rightarrow> extracted_info \<Rightarrow> py_error + extracted_info" where
  "extract_message msg extracted =
     (case dict_get msg ''role'' JNull of
        Inl e \<Rightarrow> Inl e
      | Inr role \<Rightarrow>
          if role = JStr ''user'' then
            (case dict_get msg ''content'' (JStr '''') of
               Inl e \<Rightarrow> Inl e
             | Inr (JStr raw) \<Rightarrow>
                 (let content = strip raw; content_lower = lower content
                  in case extract_names content content_lower name_phrases
                            (x_preferred_name extracted) of
                       Inl e \<Rightarrow> Inl e
                     | Inr name \<Rightarrow>
                         Inr (extracted
                               \<lparr>x_preferred_name := name,
                                x_interests :=
                                  Some (add_facts content_lower interest_keywords
                                          (the_set (x_interests extracted))),
                                x_skills :=
                                  Some (add_facts content_lower skill_keywords
                                          (the_set (x_skills extracted))),
                                x_mentions := add_mentions content_lower (x_mentions extracted)\<rparr>))
             | Inr _ \<Rightarrow> Inl AttributeError)
          else Inr extracted)"

fun extract_messages :: "json list \<Rightarrow> extracted_info \<Rightarrow> py_error + extracted_info" where
  "extract_messages [] extracted = Inr extracted"
| "extract_messages (msg # msgs) extracted =
     (case extract_message msg extracted of
        Inl e \<Rightarrow> Inl e
      | Inr extracted' \<Rightarrow> extract_messages msgs extracted')"

definition empty_extracted :: extracted_info where
  "empty_extracted =
     \<lparr>x_preferred_name = None, x_interests = Some {}, x_skills = Some {},
      x_preferences = Some [], x_mentions = {}\<rparr>"

text \<open>The method has the manager at hand as \<open>self\<close>; the profile of the manager is its state.\<close>

definition extract_from_conversation :: "profile \<Rightarrow> json list \<Rightarrow> py_error + extracted_info" where
  "extract_from_conversation self conversation_history =
     extract_messages conversation_history empty_extracted"

text \<open>\<open>d.update(other)\<close>\<close>

definition dict_update ::
  "(string \<times> json) list \<Rightarrow> (string \<times> json) list \<Rightarrow> (string \<times> json) list" where
  "dict_update d other = fold (\<lambda>(k, v) acc. AList.update k v acc) other d"

text \<open>\<open>update_profile\<close>; \<open>now\<close> is \<open>datetime.now().isoformat()\<close>.\<close>

definition update_profile :: "string \<Rightarrow> profile \<Rightarrow> extracted_info \<Rightarrow> profile" where
  "update_profile now self extracted =
     (let p1 = self\<lparr>last_updated := now\<rparr>;
          p2 = (case x_preferred_name extracted of
                  None \<Rightarrow> p1
                | Some n \<Rightarrow> if n \<noteq> [] then p1\<lparr>preferred_name := Some n\<rparr> else p1);
          p3 = (case x_interests extracted of
                  None \<Rightarrow> p2
                | Some s \<Rightarrow> p2\<lparr>interests := interests p2 \<union> s\<rparr>);
          p4 = (case x_skills extracted of
                  None \<Rightarrow> p3
                | Some s \<Rightarrow> p3\<lparr>skills := skills p3 \<union> s\<rparr>)
      in case x_preferences extracted of
           None \<Rightarrow> p4
         | Some d \<Rightarrow> p4\<lparr>preferences := dict_update (preferences p4) d\<rparr>)"

definition empty_profile :: "string \<Rightarrow> profile" where
  "empty_profile now =
     \<lparr>created = now, last_updated = now, preferred_name = None, interests = {}, skills = {},
      preferences = []\<rparr>"

section \<open>The notions of the specification\<close>

subsection \<open>Index and search\<close>

text \<open>A session id is in the bucket of a keyword; the keywords of the current entry of a session.\<close>

definition in_bucket :: "index_dict \<Rightarrow> string \<Rightarrow> string \<Rightarrow> bool" where
  "in_bucket idx keyword session_id =
     (case map_of (keyword_buckets idx) keyword of
        None \<Rightarrow> False
      | Some bucket \<Rightarrow> session_id \<in> set bucket)"

definition current_keywords :: "index_dict \<Rightarrow> string \<Rightarrow> string set" where
  "current_keywords idx session_id =
     (case map_of (conversations idx) session_id of
        None \<Rightarrow> {}
      | Some e \<Rightarrow> set (entry_keywords e))"

text \<open>A sequence of \<open>add_conversation\<close> calls, each with its session id, keywords, time and count.\<close>

type_synonym add_op = "string \<times> string list \<times> string \<times> nat"

definition run_adds :: "add_op list \<Rightarrow> index_dict \<Rightarrow> index_dict" where
  "run_adds ops idx =
     fold (\<lambda>(session_id, kws, ts, n) i. add_conversation i session_id kws ts n) ops idx"

text \<open>
  The scoring rule in the words of the specification: a query keyword gives \<open>1\<close> for the
  exact bucket and \<open>0.5\<close> for every bucket whose key contains it or is contained in it, once
  for each time the session stands in the bucket.
\<close>

definition exact_hits :: "index_dict \<Rightarrow> string \<Rightarrow> string \<Rightarrow> nat" where
  "exact_hits idx keyword_lower session_id =
     (case map_of (keyword_buckets idx) keyword_lower of
        None \<Rightarrow> 0
      | Some bucket \<Rightarrow> count_list bucket session_id)"

definition partial_hits :: "index_dict \<Rightarrow> string \<Rightarrow> string \<Rightarrow> nat" where
  "partial_hits idx keyword_lower session_id =
     (\<Sum>(indexed_keyword, bucket) \<leftarrow> keyword_buckets idx.
        if partial_hit keyword_lower indexed_keyword then count_list bucket session_id else 0)"

definition keyword_score :: "index_dict \<Rightarrow> string \<Rightarrow> string \<Rightarrow> rat" where
  "keyword_score idx keyword_lower session_id =
     of_nat (exact_hits idx keyword_lower session_id)
     + of_nat (partial_hits idx keyword_lower session_id) / 2"

text \<open>The index of the scoring example: buckets \<open>{"python programming": [a], "python": [b]}\<close>.\<close>

definition example_index :: "string \<Rightarrow> string \<Rightarrow> index_dict" where
  "example_index a b =
     \<lparr>conversations = [], keyword_buckets = [(''python programming'', [a]), (''python'', [b])]\<rparr>"

subsection \<open>Keywords\<close>

text \<open>The lower-cased content of a message, and the two kinds of keyword of a content.\<close>

definition lowered_content :: "json \<Rightarrow> string" where
  "lowered_content msg =
     (case dict_get msg ''content'' (JStr '''') of Inr (JStr s) \<Rightarrow> lower s | _ \<Rightarrow> [])"

definition is_topic_keyword :: "string \<Rightarrow> string \<Rightarrow> bool" where
  "is_topic_keyword content k = (k \<in> set important_words \<and> str_in k content)"

definition is_phrase_keyword :: "string \<Rightarrow> string \<Rightarrow> bool" where
  "is_phrase_keyword content k =
     (6 \<le> length k \<and> length k \<le> 49 \<and>
      (\<exists>i < length (split_ws content) - 1.
           k = split_ws content ! i @ '' '' @ split_ws content ! Suc i))"

text \<open>The keywords of a conversation in the order the loop meets them, each once.\<close>

definition candidates :: "string \<Rightarrow> string list" where
  "candidates content =
     filter (\<lambda>word. str_in word content) important_words
     @ filter (\<lambda>phrase. length phrase > 5 \<and> length phrase < 50) (phrase_list (split_ws content))"

definition encounter_order :: "json list \<Rightarrow> string list" where
  "encounter_order messages =
     fold set_add (concat (map (\<lambda>msg. candidates (lowered_content msg)) messages)) []"

text \<open>What every iteration order of a set does: it lists the members, each once.\<close>

definition is_iteration_order :: "(string list \<Rightarrow> string list) \<Rightarrow> bool" where
  "is_iteration_order f = (\<forall>xs. distinct xs \<longrightarrow> distinct (f xs) \<and> set (f xs) = set xs)"

subsection \<open>Store\<close>



subsection \<open>Profile\<close>

text \<open>A sequence of \<open>update_profile\<close> calls; an extraction that carries a name.\<close>

definition merge_all :: "(string \<times> extracted_info) list \<Rightarrow> profile \<Rightarrow> profile" where
  "merge_all calls self = fold (\<lambda>(now, extracted) p. update_profile now p extracted) calls self"

definition has_name :: "extracted_info \<Rightarrow> bool" where
  "has_name extracted = (case x_preferred_name extracted of None \<Rightarrow> False | Some n \<Rightarrow> n \<noteq> [])"

text \<open>The texts of the turns the user wrote, in order.\<close>

fun user_texts :: "json list \<Rightarrow> string list" where
  "user_texts [] = []"
| "user_texts (msg # msgs) =
     (case (dict_get msg ''role'' JNull, dict_get msg ''content'' (JStr '''')) of
        (Inr (JStr r), Inr (JStr c)) \<Rightarrow> if r = ''user'' then c # user_texts msgs else user_texts msgs
      | _ \<Rightarrow> user_texts msgs)"

definition extract_text :: "string \<Rightarrow> extracted_info \<Rightarrow> py_error + extracted_info" where
  "extract_text raw extracted = extract_message (message ''user'' raw) extracted"

fun extract_texts :: "string list \<Rightarrow> extracted_info \<Rightarrow> py_error + extracted_info" where
  "extract_texts [] extracted = Inr extracted"
| "extract_texts (raw # raws) extracted =
     (case extract_text raw extracted of
        Inl e \<Rightarrow> Inl e
      | Inr extracted' \<Rightarrow> extract_texts raws extracted')"

subsection \<open>Concrete inputs\<close>

definition hiking_example :: "json list" where
  "hiking_example = [message ''user'' ''I like hiking'', message ''assistant'' ''Nice!'']"

definition many_phrases :: "json list" where
  "many_phrases = [message ''user''
     ''aaa bbb ccc ddd eee fff ggg hhh iii jjj kkk lll mmm nnn ooo ppp qqq rrr sss ttt uuu vvv'']"








definition named :: "string \<Rightarrow> extracted_info" where
  "named n = empty_extracted\<lparr>x_preferred_name := Some n, x_interests := Some {''hiking''}\<rparr>"

section \<open>Verified properties\<close>

subsection \<open>Text functions\<close>

text \<open>\<open>sub in s\<close> is the substring test, and \<open>find\<close> has a position exactly when it holds.\<close>

lemma str_in_iff: "str_in sub s \<longleftrightarrow> (\<exists>ps ss. s = ps @ sub @ ss)"
proof -
  have "str_in sub s = sublist sub s"
    by (induction s) (auto simp: sublist_Cons_right)
  then show ?thesis by (simp add: sublist_def)
qed

lemma str_find_None_iff: "str_find sub s = None \<longleftrightarrow> \<not> str_in sub s"
  by (induction s) (auto split: option.splits)

text \<open>The text functions on a few inputs, with the values Python gives.\<close>

lemma text_function_examples:
  "split_ws ''  hello   world  foo '' = [''hello'', ''world'', ''foo'']"
  "split_ws [] = []"
  "strip ''  hello   world  '' = ''hello   world''"
  "strip_chars ''. ,!?'' ''..hello!?, '' = ''hello''"
  "split_on ''ab'' ''xxabyyabab'' = [''xx'', ''yy'', [], []]"
  "split_on ''aa'' ''aaa'' = [[], ''a'']"
  "first_part ''.'' ''rock climbing. really'' = ''rock climbing''"
  "str_find ''lo'' ''hello'' = Some 3"
  "capitalize ''aLICE'' = ''Alice''"
  "lower ''Hello World 42'' = ''hello world 42''"
  "isalpha ''Bob''"
  "\<not> isalpha ''Bob1''"
  "py_take (-1) [1, 2, 3 :: int] = [1, 2]"
  by code_simp+

lemma lower_char_idem: "lower_char (lower_char c) = lower_char c"
  unfolding lower_char_def upper_letters_def lower_letters_def
  by (simp split: option.splits)

lemma lower_idem: "lower (lower s) = lower s"
  by (simp add: lower_def lower_char_idem)

lemma lower_fixed_iff: "lower s = s \<longleftrightarrow> (\<forall>c \<in> set s. lower_char c = c)"
  by (simp add: lower_def map_idI list_eq_iff_nth_eq) (metis in_set_conv_nth)

lemma lower_char_space: "lower_char CHR '' '' = CHR '' ''"
  by (simp add: lower_char_def upper_letters_def lower_letters_def)

lemma lower_python: "lower ''python'' = ''python''"
  by (simp add: lower_def lower_char_def upper_letters_def lower_letters_def)

lemma split_ws_aux_chars:
  "w \<in> set (split_ws_aux acc s) \<Longrightarrow> set w \<subseteq> set acc \<union> set s"
  by (induction acc s rule: split_ws_aux.induct) (auto split: if_splits)

lemma split_ws_chars: "w \<in> set (split_ws s) \<Longrightarrow> set w \<subseteq> set s"
  using split_ws_aux_chars [of w "[]" s] by (simp add: split_ws_def)

subsection \<open>The keyword index\<close>

text \<open>Membership in a bucket, on the inverted map alone.\<close>

lemma hit_index_keyword:
  "(case map_of (index_keyword sid kw kws) k of None \<Rightarrow> False | Some b \<Rightarrow> s \<in> set b)
   = ((case map_of kws k of None \<Rightarrow> False | Some b \<Rightarrow> s \<in> set b) \<or> (k = kw \<and> s = sid))"
proof (cases "map_of kws kw")
  case None
  then have "kw \<notin> fst ` set kws" by (simp add: map_of_eq_None_iff)
  with None show ?thesis
    by (auto simp: index_keyword_def Let_def update_conv' split: option.splits)
next
  case (Some b)
  then have "kw \<in> fst ` set kws" by (metis map_of_eq_None_iff option.distinct(1))
  with Some show ?thesis
    by (auto simp: index_keyword_def Let_def update_conv' split: option.splits)
qed

lemma hit_fold_index_keyword:
  "(case map_of (fold (index_keyword sid) K kws) k of None \<Rightarrow> False | Some b \<Rightarrow> s \<in> set b)
   = ((case map_of kws k of None \<Rightarrow> False | Some b \<Rightarrow> s \<in> set b) \<or> (k \<in> set K \<and> s = sid))"
  by (induction K arbitrary: kws) (simp_all add: hit_index_keyword, blast)

lemma in_bucket_add_conversation:
  "in_bucket (add_conversation idx sid K ts n) k s
   = (in_bucket idx k s \<or> (k \<in> set K \<and> s = sid))"
  by (simp add: in_bucket_def add_conversation_def hit_fold_index_keyword)

lemma current_keywords_add_conversation:
  "current_keywords (add_conversation idx sid K ts n) s =
     (if s = sid then set K else current_keywords idx s)"
  by (simp add: current_keywords_def add_conversation_def update_conv')

lemma run_adds_Cons:
  "run_adds ((sid, K, ts, n) # ops) idx = run_adds ops (add_conversation idx sid K ts n)"
  by (simp add: run_adds_def)

lemma in_bucket_run_adds:
  "in_bucket (run_adds ops idx) k s =
     (in_bucket idx k s \<or> (\<exists>(sid, K, ts, n) \<in> set ops. sid = s \<and> k \<in> set K))"
proof (induction ops arbitrary: idx)
  case Nil
  show ?case by (simp add: run_adds_def)
next
  case (Cons a ops)
  obtain sid K ts n where a: "a = (sid, K, ts, n)" by (cases a) auto
  show ?case
    using Cons.IH [of "add_conversation idx sid K ts n"]
    by (auto simp: in_bucket_add_conversation a run_adds_Cons)
qed

lemma in_bucket_empty: "\<not> in_bucket empty_index k s"
  by (simp add: in_bucket_def empty_index_def)

lemma current_keywords_empty: "current_keywords empty_index s = {}"
  by (simp add: current_keywords_def empty_index_def)

lemma current_subset_run_adds:
  "(\<forall>s k. k \<in> current_keywords idx s \<longrightarrow> in_bucket idx k s)
   \<Longrightarrow> k \<in> current_keywords (run_adds ops idx) s \<Longrightarrow> in_bucket (run_adds ops idx) k s"
proof (induction ops arbitrary: idx)
  case Nil
  then show ?case by (simp add: run_adds_def)
next
  case (Cons a ops)
  obtain sid K ts n where a: "a = (sid, K, ts, n)" by (cases a) auto
  have "\<forall>s k. k \<in> current_keywords (add_conversation idx sid K ts n) s
          \<longrightarrow> in_bucket (add_conversation idx sid K ts n) k s"
    using Cons.prems(1)
    by (auto simp: current_keywords_add_conversation in_bucket_add_conversation split: if_splits)
  from Cons.IH [OF this] Cons.prems(2) show ?case
    by (simp add: a run_adds_Cons)
qed

text \<open>
  C2, as the code has it. After any sequence of \<open>add_conversation\<close> calls on an empty index,
  every keyword of the current keyword set of a session has the session in its bucket; and
  a session is in the bucket of a keyword exactly when some call of the sequence gave that
  keyword for that session, whether or not a later call replaced the set. The inverted map
  follows from the history of calls, not from the forward map.
\<close>

theorem index_forward_in_inverted:
  "(k \<in> current_keywords (run_adds ops empty_index) s
      \<longrightarrow> in_bucket (run_adds ops empty_index) k s)
   \<and> (in_bucket (run_adds ops empty_index) k s \<longleftrightarrow>
        (\<exists>(sid, K, ts, n) \<in> set ops. sid = s \<and> k \<in> set K))"
proof (intro conjI impI)
  assume "k \<in> current_keywords (run_adds ops empty_index) s"
  then show "in_bucket (run_adds ops empty_index) k s"
    using current_subset_run_adds [of empty_index k ops s]
    by (simp add: current_keywords_empty)
next
  show "in_bucket (run_adds ops empty_index) k s \<longleftrightarrow>
        (\<exists>(sid, K, ts, n) \<in> set ops. sid = s \<and> k \<in> set K)"
    by (simp add: in_bucket_run_adds in_bucket_empty)
qed

theorem index_forward_in_inverted_witness:
  "''beta'' \<in> current_keywords
      (run_adds [(''s1'', [''alpha''], ''t1'', 1), (''s1'', [''beta''], ''t2'', 2)] empty_index) ''s1''
   \<and> in_bucket
      (run_adds [(''s1'', [''alpha''], ''t1'', 1), (''s1'', [''beta''], ''t2'', 2)] empty_index)
      ''beta'' ''s1''"
proof -
  have "''beta'' \<in> current_keywords
      (run_adds [(''s1'', [''alpha''], ''t1'', 1), (''s1'', [''beta''], ''t2'', 2)] empty_index) ''s1''"
    by (simp add: run_adds_def current_keywords_add_conversation)
  with index_forward_in_inverted
    [of "''beta''" "[(''s1'', [''alpha''], ''t1'', 1), (''s1'', [''beta''], ''t2'', 2)]" "''s1''"]
  show ?thesis by blast
qed

text \<open>
  C2 as stated fails: once the keyword set of \<open>s1\<close> is replaced, \<open>s1\<close> is still in the bucket of
  the keyword it no longer has.
\<close>

theorem stale_bucket_counterexample:
  "\<not> (in_bucket
        (run_adds [(''s1'', [''alpha''], ''t1'', 1), (''s1'', [''beta''], ''t2'', 2)] empty_index)
        ''alpha'' ''s1''
       \<longleftrightarrow> ''alpha'' \<in> current_keywords
        (run_adds [(''s1'', [''alpha''], ''t1'', 1), (''s1'', [''beta''], ''t2'', 2)] empty_index)
        ''s1'')"
  by (simp add: run_adds_def in_bucket_add_conversation current_keywords_add_conversation
      in_bucket_empty)

subsection \<open>Search\<close>

lemma score_of_bump:
  "score_of (bump w s m) t = (if t = s then score_of m s + w else score_of m t)"
  by (simp add: score_of_def bump_def update_conv')


lemma score_of_fold_bump:
  "score_of (fold (bump w) b m) t = score_of m t + w * of_nat (count_list b t)"
  by (induction b arbitrary: m) (auto simp: score_of_bump algebra_simps)


lemma score_of_direct_match:
  "score_of (direct_match idx k m) t = score_of m t + of_nat (exact_hits idx k t)"
  by (simp add: direct_match_def exact_hits_def score_of_fold_bump split: option.splits)

lemma score_of_partial_fold:
  "score_of (fold (\<lambda>(indexed_keyword, bucket) m'.
             if partial_hit k indexed_keyword then fold (bump (1/2)) bucket m' else m') kbs m) t
   = score_of m t + of_nat (\<Sum>(indexed_keyword, bucket) \<leftarrow> kbs.
        if partial_hit k indexed_keyword then count_list bucket t else 0) / 2"
  by (induction kbs arbitrary: m) (auto simp: score_of_fold_bump algebra_simps add_divide_distrib)

lemma score_of_partial_match:
  "score_of (partial_match idx k m) t = score_of m t + of_nat (partial_hits idx k t) / 2"
  by (simp add: partial_match_def partial_hits_def score_of_partial_fold)

lemma score_of_fold_keywords:
  "score_of (fold (\<lambda>keyword m. partial_match idx (lower keyword)
                                 (direct_match idx (lower keyword) m)) ks m) t
   = score_of m t + (\<Sum>k \<leftarrow> ks. keyword_score idx (lower k) t)"
  by (induction ks arbitrary: m)
     (auto simp: score_of_partial_match score_of_direct_match keyword_score_def algebra_simps)

lemma score_of_matching_sessions:
  "score_of (matching_sessions idx ks) t = (\<Sum>k \<leftarrow> ks. keyword_score idx (lower k) t)"
proof -
  have "score_of [] t = 0" by (simp add: score_of_def)
  then show ?thesis by (simp add: matching_sessions_def score_of_fold_keywords)
qed






lemma example_scores:
  "a \<noteq> b \<Longrightarrow> matching_sessions (example_index a b) [''python''] = [(b, 3/2), (a, 1/2)]"
  by (simp add: matching_sessions_def lower_python example_index_def direct_match_def
      partial_match_def partial_hit_def bump_def score_of_def)

text \<open>Sessions of equal score keep the order of the dictionary.\<close>

lemma search_tie_example:
  "search_by_keywords
     \<lparr>conversations = [], keyword_buckets = [(''python'', [''X'', ''Y'']), (''code'', [''Z''])]\<rparr>
     [''python'', ''Code''] = [''X'', ''Y'', ''Z'']"
  by code_simp

text \<open>
  C1, as the code has it. On the buckets \<open>{"python programming": [a], "python": [b]}\<close> with
  \<open>a\<close> and \<open>b\<close> two sessions, the query \<open>["python"]\<close> scores \<open>b\<close> at \<open>1.5\<close>: \<open>1\<close> for the exact
  bucket and \<open>0.5\<close> more because the key of that bucket passes the substring test as well;
  it scores \<open>a\<close> at \<open>0.5\<close> and ranks \<open>b\<close> above \<open>a\<close>. In general the score of a session is the
  sum over the query keywords, lower-cased, of \<open>1\<close> for the exact bucket and \<open>0.5\<close> for every
  bucket whose key contains the keyword or is contained in it.
\<close>

theorem partial_match_scoring:
  "(a \<noteq> b \<longrightarrow>
      score_of (matching_sessions (example_index a b) [''python'']) b = 3/2
      \<and> score_of (matching_sessions (example_index a b) [''python'']) a = 1/2
      \<and> search_by_keywords (example_index a b) [''python''] = [b, a])
   \<and> score_of (matching_sessions idx ks) s = (\<Sum>k \<leftarrow> ks. keyword_score idx (lower k) s)"
proof (intro conjI impI)
  assume ab: "a \<noteq> b"
  note sc = example_scores [OF ab]
  show "score_of (matching_sessions (example_index a b) [''python'']) b = 3/2"
    by (simp add: sc score_of_def)
  show "score_of (matching_sessions (example_index a b) [''python'']) a = 1/2"
    using ab by (simp add: sc score_of_def)
  show "search_by_keywords (example_index a b) [''python''] = [b, a]"
    by (simp add: search_by_keywords_def sc)
next
  show "score_of (matching_sessions idx ks) s = (\<Sum>k \<leftarrow> ks. keyword_score idx (lower k) s)"
    by (rule score_of_matching_sessions)
qed

theorem partial_match_scoring_witness:
  "''A'' \<noteq> ''B''
   \<and> score_of (matching_sessions (example_index ''A'' ''B'') [''python'']) ''B'' = 3/2
   \<and> score_of (matching_sessions (example_index ''A'' ''B'') [''python'']) ''A'' = 1/2
   \<and> search_by_keywords (example_index ''A'' ''B'') [''python''] = [''B'', ''A'']"
proof -
  have ab: "''A'' \<noteq> ''B''" by simp
  from ab partial_match_scoring [of "''A''" "''B''"] show ?thesis by blast
qed

text \<open>C1 as stated fails: the score of the session in the exact bucket is not \<open>1\<close>.\<close>

theorem exact_score_counterexample:
  "score_of (matching_sessions (example_index ''A'' ''B'') [''python'']) ''B'' \<noteq> 1"
  by (simp add: matching_sessions_def lower_python example_index_def direct_match_def
      partial_match_def partial_hit_def bump_def score_of_def)




subsection \<open>Keyword extraction\<close>

lemma set_set_add: "set (set_add x s) = insert x (set s)"
  by (auto simp: set_add_def)

lemma distinct_set_add: "distinct s \<Longrightarrow> distinct (set_add x s)"
  by (simp add: set_add_def)

lemma set_fold_set_add: "set (fold set_add xs s) = set xs \<union> set s"
  by (induction xs arbitrary: s) (auto simp: set_set_add)

lemma distinct_fold_set_add: "distinct s \<Longrightarrow> distinct (fold set_add xs s)"
  by (induction xs arbitrary: s) (auto simp: distinct_set_add)

lemma fold_if_filter:
  "fold (\<lambda>x s. if P x then f x s else s) xs s = fold f (filter P xs) s"
  by (induction xs arbitrary: s) auto

lemma message_step:
  "add_phrases (split_ws c) (add_topic_words c kws) = fold set_add (candidates c) kws"
  by (simp add: add_topic_words_def add_phrases_def fold_if_filter candidates_def)

text \<open>The loop adds the candidates of each message in turn.\<close>

lemma collect_keywords_fold:
  "collect_keywords msgs kws = Inr out
   \<Longrightarrow> out = fold set_add (concat (map (\<lambda>msg. candidates (lowered_content msg)) msgs)) kws"
proof (induction msgs arbitrary: kws)
  case Nil
  then show ?case by simp
next
  case (Cons msg msgs)
  from Cons.prems obtain s where s: "dict_get msg ''content'' (JStr '''') = Inr (JStr s)"
    by (auto split: sum.splits json.splits)
  with Cons.prems have "collect_keywords msgs (fold set_add (candidates (lower s)) kws) = Inr out"
    by (simp add: message_step Let_def)
  from Cons.IH [OF this] s show ?case
    by (simp add: lowered_content_def)
qed

lemma collect_keywords_contents:
  "collect_keywords msgs kws = Inr out \<Longrightarrow> msg \<in> set msgs
   \<Longrightarrow> \<exists>s. lowered_content msg = lower s"
proof (induction msgs arbitrary: kws)
  case Nil
  then show ?case by simp
next
  case (Cons m msgs)
  from Cons.prems(1) obtain s where s: "dict_get m ''content'' (JStr '''') = Inr (JStr s)"
    by (auto split: sum.splits json.splits)
  with Cons.prems(1)
  have rest: "collect_keywords msgs
                (add_phrases (split_ws (lower s)) (add_topic_words (lower s) kws)) = Inr out"
    by (simp add: Let_def)
  show ?case
  proof (cases "msg = m")
    case True
    with s show ?thesis by (auto simp: lowered_content_def)
  next
    case False
    with Cons.prems(2) have "msg \<in> set msgs" by simp
    from Cons.IH [OF rest this] show ?thesis .
  qed
qed



text \<open>The phrases are the pairs of neighbouring words.\<close>

lemma phrase_list_index:
  "p \<in> set (phrase_list ws) \<longleftrightarrow> (\<exists>i. Suc i < length ws \<and> p = ws ! i @ '' '' @ ws ! Suc i)"
proof (induction ws rule: phrase_list.induct)
  case (1 w1 w2 ws)
  show ?case
  proof
    assume "p \<in> set (phrase_list (w1 # w2 # ws))"
    then consider "p = w1 @ '' '' @ w2" | "p \<in> set (phrase_list (w2 # ws))" by auto
    then show "\<exists>i. Suc i < length (w1 # w2 # ws)
                 \<and> p = (w1 # w2 # ws) ! i @ '' '' @ (w1 # w2 # ws) ! Suc i"
    proof cases
      case 1
      then show ?thesis by (intro exI [of _ 0]) simp
    next
      case 2
      with "1.IH" obtain i where "Suc i < length (w2 # ws)"
          "p = (w2 # ws) ! i @ '' '' @ (w2 # ws) ! Suc i"
        by blast
      then show ?thesis by (intro exI [of _ "Suc i"]) simp
    qed
  next
    assume "\<exists>i. Suc i < length (w1 # w2 # ws)
              \<and> p = (w1 # w2 # ws) ! i @ '' '' @ (w1 # w2 # ws) ! Suc i"
    then obtain i where i: "Suc i < length (w1 # w2 # ws)"
        "p = (w1 # w2 # ws) ! i @ '' '' @ (w1 # w2 # ws) ! Suc i"
      by blast
    show "p \<in> set (phrase_list (w1 # w2 # ws))"
    proof (cases i)
      case 0
      with i show ?thesis by simp
    next
      case (Suc j)
      with i have "Suc j < length (w2 # ws)" "p = (w2 # ws) ! j @ '' '' @ (w2 # ws) ! Suc j"
        by auto
      with "1.IH" have "p \<in> set (phrase_list (w2 # ws))" by blast
      then show ?thesis by simp
    qed
  qed
qed auto

lemma lower_important_words: "w \<in> set important_words \<Longrightarrow> lower w = w"
  by (auto simp: important_words_def lower_def lower_char_def upper_letters_def
      lower_letters_def)

lemma lower_phrase:
  assumes "p \<in> set (phrase_list (split_ws (lower s)))"
  shows "lower p = p"
proof -
  from assms obtain i where i: "Suc i < length (split_ws (lower s))"
    and p: "p = split_ws (lower s) ! i @ '' '' @ split_ws (lower s) ! Suc i"
    by (auto simp: phrase_list_index)
  have fixed: "\<forall>c \<in> set (lower s). lower_char c = c"
    using lower_idem [of s] by (simp add: lower_fixed_iff)
  have "set (split_ws (lower s) ! i) \<subseteq> set (lower s)"
       "set (split_ws (lower s) ! Suc i) \<subseteq> set (lower s)"
    using i by (auto intro!: split_ws_chars)
  with fixed have "\<forall>c \<in> set p. lower_char c = c"
    by (auto simp: p lower_char_space)
  then show ?thesis by (simp add: lower_fixed_iff)
qed

lemma candidates_sound:
  assumes "k \<in> set (candidates (lower s))"
  shows "lower k = k \<and> (is_topic_keyword (lower s) k \<or> is_phrase_keyword (lower s) k)"
proof -
  from assms consider
      "k \<in> set important_words" "str_in k (lower s)"
    | "k \<in> set (phrase_list (split_ws (lower s)))" "length k > 5" "length k < 50"
    by (auto simp: candidates_def)
  then show ?thesis
  proof cases
    case 1
    then show ?thesis by (simp add: lower_important_words is_topic_keyword_def)
  next
    case 2
    from 2(1) obtain i where "Suc i < length (split_ws (lower s))"
        "k = split_ws (lower s) ! i @ '' '' @ split_ws (lower s) ! Suc i"
      by (auto simp: phrase_list_index)
    then have "\<exists>i < length (split_ws (lower s)) - 1.
                 k = split_ws (lower s) ! i @ '' '' @ split_ws (lower s) ! Suc i"
      by (intro exI [of _ i]) (simp add: less_diff_conv)
    with 2(2,3) have "is_phrase_keyword (lower s) k"
      by (simp add: is_phrase_keyword_def)
    with 2 show ?thesis by (simp add: lower_phrase)
  qed
qed

lemma encounter_order_sound:
  assumes "collect_keywords msgs [] = Inr out" and "k \<in> set (encounter_order msgs)"
  shows "lower k = k \<and> (\<exists>msg \<in> set msgs. is_topic_keyword (lowered_content msg) k
                             \<or> is_phrase_keyword (lowered_content msg) k)"
proof -
  from assms(2) obtain msg where msg: "msg \<in> set msgs" "k \<in> set (candidates (lowered_content msg))"
    by (auto simp: encounter_order_def set_fold_set_add)
  from collect_keywords_contents [OF assms(1) msg(1)]
  obtain s where s: "lowered_content msg = lower s" ..
  from msg(2) candidates_sound [of k s]
  have "lower k = k"
       "is_topic_keyword (lowered_content msg) k \<or> is_phrase_keyword (lowered_content msg) k"
    by (simp_all add: s)
  with msg(1) show ?thesis by blast
qed

lemma is_iteration_order_rev: "is_iteration_order rev"
  by (simp add: is_iteration_order_def)

lemma hiking_keywords:
  "extract_keywords rev hiking_example = Inr [''like hiking'', ''i like'', ''like'']"
  by code_simp

lemma hiking_well_formed: "\<forall>msg \<in> set hiking_example. well_formed_message msg"
  by (simp add: hiking_example_def message_def well_formed_message_def)

text \<open>
  C5, as the code has it. For every iteration order of the keyword set: at most 20 keywords
  are retained, each once; every retained keyword is in lower case and is either a word of
  the fixed vocabulary that occurs in the lower-cased text of a message, or two neighbouring
  words of such a text joined by one space, of length 6 to 49. The retained keywords are the
  first 20 in the iteration order of the set, not in the order of encounter.
\<close>

theorem extract_keywords_retained:
  assumes "is_iteration_order ord" and "extract_keywords ord messages = Inr ks"
  shows "length ks \<le> 20 \<and> distinct ks
         \<and> ks = take 20 (ord (encounter_order messages))
         \<and> (\<forall>k \<in> set ks. lower k = k \<and>
               (\<exists>msg \<in> set messages. is_topic_keyword (lowered_content msg) k
                                    \<or> is_phrase_keyword (lowered_content msg) k))"
proof -
  from assms(2) obtain found where found: "collect_keywords messages [] = Inr found"
    and ks: "ks = take 20 (ord found)"
    by (auto simp: extract_keywords_def split: sum.splits)
  from collect_keywords_fold [OF found] have fe: "found = encounter_order messages"
    by (simp add: encounter_order_def)
  have d: "distinct found"
    by (simp add: fe encounter_order_def distinct_fold_set_add)
  with assms(1) have o: "distinct (ord found)" "set (ord found) = set found"
    by (auto simp: is_iteration_order_def)
  have "\<forall>k \<in> set ks. k \<in> set (encounter_order messages)"
    using o(2) fe by (auto simp: ks dest: in_set_takeD)
  with encounter_order_sound [OF found]
  have "\<forall>k \<in> set ks. lower k = k \<and>
               (\<exists>msg \<in> set messages. is_topic_keyword (lowered_content msg) k
                                    \<or> is_phrase_keyword (lowered_content msg) k)"
    by blast
  moreover have "length ks \<le> 20" by (simp add: ks)
  moreover have "distinct ks" using o(1) by (simp add: ks)
  moreover have "ks = take 20 (ord (encounter_order messages))" by (simp add: ks fe)
  ultimately show ?thesis by blast
qed

theorem extract_keywords_retained_witness:
  "is_iteration_order rev
   \<and> extract_keywords rev hiking_example = Inr [''like hiking'', ''i like'', ''like'']
   \<and> length [''like hiking'', ''i like'', ''like''] \<le> 20
   \<and> lower ''like hiking'' = ''like hiking''
   \<and> (\<exists>msg \<in> set hiking_example.
          is_topic_keyword (lowered_content msg) ''like hiking''
          \<or> is_phrase_keyword (lowered_content msg) ''like hiking'')"
proof -
  from extract_keywords_retained [OF is_iteration_order_rev hiking_keywords]
  have len: "length [''like hiking'', ''i like'', ''like''] \<le> 20"
    and all: "\<forall>k \<in> set [''like hiking'', ''i like'', ''like'']. lower k = k \<and>
               (\<exists>msg \<in> set hiking_example. is_topic_keyword (lowered_content msg) k
                                    \<or> is_phrase_keyword (lowered_content msg) k)"
    by blast+
  from all have "lower ''like hiking'' = ''like hiking''"
    "\<exists>msg \<in> set hiking_example.
          is_topic_keyword (lowered_content msg) ''like hiking''
          \<or> is_phrase_keyword (lowered_content msg) ''like hiking''"
    by simp_all
  with len is_iteration_order_rev hiking_keywords show ?thesis by blast
qed

text \<open>
  C5 as stated fails: from 21 phrases, under the iteration order that lists the set backwards,
  the 20 retained are not the first 20 encountered.
\<close>

theorem first_twenty_counterexample:
  "extract_keywords rev many_phrases \<noteq> Inr (take 20 (encounter_order many_phrases))"
  by code_simp

subsection \<open>Saving and loading\<close>








subsection \<open>Listing\<close>












subsection \<open>Clearing\<close>








subsection \<open>Profile merge\<close>

lemma interests_update_profile:
  "interests (update_profile now p e) = interests p \<union> the_set (x_interests e)"
  by (simp add: update_profile_def Let_def the_set_def split: option.splits)

lemma skills_update_profile:
  "skills (update_profile now p e) = skills p \<union> the_set (x_skills e)"
  by (simp add: update_profile_def Let_def the_set_def split: option.splits)

lemma preferred_name_update_profile:
  "preferred_name (update_profile now p e) =
     (if has_name e then x_preferred_name e else preferred_name p)"
  by (simp add: update_profile_def Let_def has_name_def split: option.splits)

lemma last_updated_update_profile: "last_updated (update_profile now p e) = now"
  by (simp add: update_profile_def Let_def split: option.splits)

lemma merge_all_Cons:
  "merge_all ((now, e) # calls) p = merge_all calls (update_profile now p e)"
  by (simp add: merge_all_def)

lemma merge_all_append:
  "merge_all (xs @ ys) p = merge_all ys (merge_all xs p)"
  by (simp add: merge_all_def)

lemma interests_merge_all: "interests p \<subseteq> interests (merge_all calls p)"
proof (induction calls arbitrary: p)
  case Nil
  show ?case by (simp add: merge_all_def)
next
  case (Cons c calls)
  obtain now e where c: "c = (now, e)" by (cases c)
  have "interests p \<subseteq> interests (update_profile now p e)"
    by (simp add: interests_update_profile)
  also have "\<dots> \<subseteq> interests (merge_all calls (update_profile now p e))"
    by (rule Cons.IH)
  finally show ?case by (simp add: c merge_all_Cons)
qed

lemma skills_merge_all: "skills p \<subseteq> skills (merge_all calls p)"
proof (induction calls arbitrary: p)
  case Nil
  show ?case by (simp add: merge_all_def)
next
  case (Cons c calls)
  obtain now e where c: "c = (now, e)" by (cases c)
  have "skills p \<subseteq> skills (update_profile now p e)"
    by (simp add: skills_update_profile)
  also have "\<dots> \<subseteq> skills (merge_all calls (update_profile now p e))"
    by (rule Cons.IH)
  finally show ?case by (simp add: c merge_all_Cons)
qed

lemma preferred_name_no_names:
  "\<forall>c \<in> set calls. \<not> has_name (snd c)
   \<Longrightarrow> preferred_name (merge_all calls p) = preferred_name p"
proof (induction calls arbitrary: p)
  case Nil
  show ?case by (simp add: merge_all_def)
next
  case (Cons c calls)
  obtain now e where c: "c = (now, e)" by (cases c)
  with Cons.prems have "\<not> has_name e" "\<forall>c \<in> set calls. \<not> has_name (snd c)" by auto
  with Cons.IH [of "update_profile now p e"] show ?case
    by (simp add: c merge_all_Cons preferred_name_update_profile)
qed

text \<open>
  C6. From any profile and through any sequence of \<open>update_profile\<close> calls, the interests and
  the skills only grow: each call leaves the union of what was there and what was extracted.
  The scalar fields are overwritten, not merged: \<open>last_updated\<close> is the time of the call, and
  after a sequence of calls the preferred name is the name of the last call that carried one.
\<close>

theorem profile_merge_monotone:
  "interests p \<subseteq> interests (merge_all calls p)
   \<and> skills p \<subseteq> skills (merge_all calls p)
   \<and> interests (update_profile now p e) = interests p \<union> the_set (x_interests e)
   \<and> skills (update_profile now p e) = skills p \<union> the_set (x_skills e)
   \<and> last_updated (update_profile now p e) = now
   \<and> (has_name e \<and> (\<forall>c \<in> set later. \<not> has_name (snd c)) \<longrightarrow>
        preferred_name (merge_all (earlier @ [(now, e)] @ later) p) = x_preferred_name e)"
proof (intro conjI impI)
  show "interests p \<subseteq> interests (merge_all calls p)" by (rule interests_merge_all)
  show "skills p \<subseteq> skills (merge_all calls p)" by (rule skills_merge_all)
  show "interests (update_profile now p e) = interests p \<union> the_set (x_interests e)"
    by (rule interests_update_profile)
  show "skills (update_profile now p e) = skills p \<union> the_set (x_skills e)"
    by (rule skills_update_profile)
  show "last_updated (update_profile now p e) = now"
    by (rule last_updated_update_profile)
next
  assume h: "has_name e \<and> (\<forall>c \<in> set later. \<not> has_name (snd c))"
  then have "preferred_name (merge_all later (update_profile now (merge_all earlier p) e))
             = preferred_name (update_profile now (merge_all earlier p) e)"
    by (simp add: preferred_name_no_names)
  also have "\<dots> = x_preferred_name e"
    using h by (simp add: preferred_name_update_profile)
  finally show "preferred_name (merge_all (earlier @ [(now, e)] @ later) p) = x_preferred_name e"
    by (simp add: merge_all_append merge_all_Cons)
qed

theorem profile_merge_monotone_witness:
  "has_name (named ''Bob'')
   \<and> \<not> has_name empty_extracted
   \<and> preferred_name
        (merge_all ([(''t1'', named ''Alice'')] @ [(''t2'', named ''Bob'')] @ [(''t3'', empty_extracted)])
           (empty_profile ''t0'')) = Some ''Bob''"
proof -
  have a: "has_name (named ''Bob'')" by (simp add: has_name_def named_def)
  have b: "\<forall>c \<in> set [(''t3'', empty_extracted)]. \<not> has_name (snd c)"
    by (simp add: has_name_def empty_extracted_def)
  have c: "x_preferred_name (named ''Bob'') = Some ''Bob''" by (simp add: named_def)
  have d: "\<not> has_name empty_extracted"
    by (simp add: has_name_def empty_extracted_def)
  from a b c
    profile_merge_monotone [of "empty_profile ''t0''" "[]" "''t2''" "named ''Bob''"
      "[(''t3'', empty_extracted)]" "[(''t1'', named ''Alice'')]"]
  have "preferred_name
        (merge_all ([(''t1'', named ''Alice'')] @ [(''t2'', named ''Bob'')] @ [(''t3'', empty_extracted)])
           (empty_profile ''t0'')) = Some ''Bob''"
    by simp
  with a d show ?thesis by blast
qed

subsection \<open>Profile extraction\<close>

text \<open>On well-formed messages the extraction reads the texts of the user and nothing else.\<close>

lemma extract_messages_user_texts:
  "\<forall>msg \<in> set msgs. well_formed_message msg
   \<Longrightarrow> extract_messages msgs ex = extract_texts (user_texts msgs) ex"
proof (induction msgs arbitrary: ex)
  case Nil
  show ?case by simp
next
  case (Cons msg msgs)
  then have wf: "well_formed_message msg" and rest: "\<forall>m \<in> set msgs. well_formed_message m"
    by auto
  from wf obtain d r c where m: "msg = JObj d" "map_of d ''role'' = Some (JStr r)"
      "map_of d ''content'' = Some (JStr c)"
    by (auto simp: well_formed_message_def split: json.splits option.splits)
  show ?case
  proof (cases "r = ''user''")
    case True
    have "extract_message msg ex = extract_text c ex"
      by (simp add: m True extract_message_def extract_text_def message_def)
    moreover have "user_texts (msg # msgs) = c # user_texts msgs"
      by (simp add: m True)
    ultimately show ?thesis
      using Cons.IH [OF rest] by (simp split: sum.splits)
  next
    case False
    have "extract_message msg ex = Inr ex"
      using False by (simp add: m extract_message_def)
    moreover have "user_texts (msg # msgs) = user_texts msgs"
      using False by (simp add: m)
    ultimately show ?thesis
      using Cons.IH [OF rest] by simp
  qed
qed

lemma hiking_user_texts:
  "user_texts hiking_example = user_texts [message ''user'' ''I like hiking'']"
  by (simp add: hiking_example_def message_def)

lemma hiking_extracted:
  "extract_from_conversation (empty_profile ''t0'') [message ''user'' ''I like hiking'']
   = Inr (empty_extracted\<lparr>x_interests := Some {''hiking''}\<rparr>)"
  by code_simp

text \<open>The extraction on a conversation, with the result Python gives.\<close>

lemma extraction_example:
  "extract_from_conversation (empty_profile ''t0'')
     [message ''user'' ''  My name is alice. I love Rock Climbing. Really! '',
      message ''assistant'' ''my name is Eve'']
   = Inr (empty_extracted\<lparr>x_preferred_name := Some ''Alice'',
                           x_interests := Some {''rock climbing''},
                           x_mentions := {''name''}\<rparr>)"
  by code_simp

text \<open>
  C9. The extraction is a function of the conversation alone: whatever the state of the
  manager that runs it, the same history gives the same result, be it the same exception or
  the same name, interests, skills, preferences and mentions. It reads no clock and iterates
  over no set. On well-formed histories the result is fixed by the texts of the user's turns.
\<close>

theorem extraction_deterministic:
  "extract_from_conversation self1 history = extract_from_conversation self2 history
   \<and> ((\<forall>msg \<in> set h1. well_formed_message msg) \<and> (\<forall>msg \<in> set h2. well_formed_message msg)
        \<and> user_texts h1 = user_texts h2 \<longrightarrow>
      extract_from_conversation self1 h1 = extract_from_conversation self2 h2)"
proof (intro conjI impI)
  show "extract_from_conversation self1 history = extract_from_conversation self2 history"
    by (simp add: extract_from_conversation_def)
next
  assume "(\<forall>msg \<in> set h1. well_formed_message msg) \<and> (\<forall>msg \<in> set h2. well_formed_message msg)
        \<and> user_texts h1 = user_texts h2"
  then show "extract_from_conversation self1 h1 = extract_from_conversation self2 h2"
    by (simp add: extract_from_conversation_def extract_messages_user_texts)
qed

theorem extraction_deterministic_witness:
  "list_all well_formed_message hiking_example
   \<and> list_all well_formed_message [message ''user'' ''I like hiking'']
   \<and> user_texts hiking_example = user_texts [message ''user'' ''I like hiking'']
   \<and> extract_from_conversation (empty_profile ''t1'') hiking_example
       = Inr (empty_extracted\<lparr>x_interests := Some {''hiking''}\<rparr>)"
proof -
  have a: "\<forall>msg \<in> set [message ''user'' ''I like hiking'']. well_formed_message msg"
    by (simp add: message_def well_formed_message_def)
  from a hiking_well_formed hiking_user_texts
    extraction_deterministic [of "empty_profile ''t1''" hiking_example "empty_profile ''t0''"
      hiking_example "[message ''user'' ''I like hiking'']"]
  have "extract_from_conversation (empty_profile ''t1'') hiking_example
        = extract_from_conversation (empty_profile ''t0'') [message ''user'' ''I like hiking'']"
    by blast
  then have "extract_from_conversation (empty_profile ''t1'') hiking_example
       = Inr (empty_extracted\<lparr>x_interests := Some {''hiking''}\<rparr>)"
    by (simp only: hiking_extracted)
  moreover have "list_all well_formed_message hiking_example"
    "list_all well_formed_message [message ''user'' ''I like hiking'']"
    using a hiking_well_formed by (simp_all add: list_all_iff)
  ultimately show ?thesis using hiking_user_texts by blast
qed

subsection \<open>The permission gate\<close>


lemma map_of_filter_None:
  "k \<notin> fst ` set (filter P xs) \<Longrightarrow> map_of (filter P xs) k = None"
  by (simp add: map_of_eq_None_iff)

text \<open>
  C10. Fail-closed default: an operation whose name has no entry in the configured table and
  no unexpired temporary grant is answered with \<open>DENY\<close>; under the default configuration,
  which has no entry for internet access, the internet-access check is \<open>DENY\<close> at every time.
\<close>

theorem check_permission_fail_closed:
  "(map_of (permissions pm) (op_value operation) = None \<and> \<not> unexpired_grant now pm operation
      \<longrightarrow> fst (check_permission now pm operation) = DENY)
   \<and> fst (check_permission now' init_default INTERNET_ACCESS) = DENY"
proof (intro conjI impI)
  assume h: "map_of (permissions pm) (op_value operation) = None \<and> \<not> unexpired_grant now pm operation"
  then have "map_of (temp_permissions (cleanup_expired_permissions now pm)) (op_value operation) = None"
    unfolding unexpired_grant_def cleanup_expired_permissions_def
    by (simp add: map_of_filter_None)
  moreover have "permissions (cleanup_expired_permissions now pm) = permissions pm"
    by (simp add: cleanup_expired_permissions_def)
  ultimately show "fst (check_permission now pm operation) = DENY"
    using h by (simp add: check_permission_def Let_def)
next
  show "fst (check_permission now' init_default INTERNET_ACCESS) = DENY"
    by (simp add: check_permission_def init_default_def set_default_permissions_def
        default_permissions_def cleanup_expired_permissions_def Let_def)
qed

theorem check_permission_fail_closed_witness:
  "map_of (permissions (grant_temporary_permission 0 init_default INTERNET_ACCESS 5))
       (op_value INTERNET_ACCESS) = None
   \<and> \<not> unexpired_grant 300000001 (grant_temporary_permission 0 init_default INTERNET_ACCESS 5)
         INTERNET_ACCESS
   \<and> fst (check_permission 300000001 (grant_temporary_permission 0 init_default INTERNET_ACCESS 5)
         INTERNET_ACCESS) = DENY"
proof -
  let ?pm = "grant_temporary_permission 0 init_default INTERNET_ACCESS 5"
  have a: "map_of (permissions ?pm) (op_value INTERNET_ACCESS) = None"
    by (simp add: grant_temporary_permission_def init_default_def set_default_permissions_def
        default_permissions_def)
  have b: "\<not> unexpired_grant 300000001 ?pm INTERNET_ACCESS"
    by (simp add: unexpired_grant_def grant_temporary_permission_def init_default_def
        set_default_permissions_def)
  from a b check_permission_fail_closed [of ?pm INTERNET_ACCESS 300000001]
  show ?thesis by blast
qed

end
